theory Spec2Isabelle
  imports Complex_Main
begin

section \<open>Python primitives used by the parsers\<close>

text \<open>
  The parsers of \<^verbatim>\<open>interfaces/g98/file_parsers.py\<close> work on Python 2 byte strings.
  A line is a \<^typ>\<open>string\<close>; exceptions are values of \<open>error\<close>.\<close>

datatype error = IndexError | ValueError | AttributeError

text \<open>Slicing \<^verbatim>\<open>s[i:j]\<close>: a negative index counts from the end, and both ends are clamped.\<close>

definition norm_index :: "nat \<Rightarrow> int \<Rightarrow> nat" where
  "norm_index n i = (if i < 0 then nat (max 0 (i + int n)) else min (nat i) n)"

definition py_slice :: "'a list \<Rightarrow> int \<Rightarrow> int \<Rightarrow> 'a list" where
  "py_slice xs i j =
     (let a = norm_index (length xs) i; b = norm_index (length xs) j
      in take (b - a) (drop a xs))"

text \<open>Indexing \<^verbatim>\<open>xs[i]\<close>: a negative index counts from the end; out of range raises.\<close>

definition py_index :: "'a list \<Rightarrow> int \<Rightarrow> nat option" where
  "py_index xs i =
     (let n = int (length xs); j = (if i < 0 then i + n else i)
      in if 0 \<le> j \<and> j < n then Some (nat j) else None)"

text \<open>The whitespace of \<^verbatim>\<open>str.split()\<close> and of \<^verbatim>\<open>\s\<close> on byte strings.\<close>

definition is_space :: "char \<Rightarrow> bool" where
  "is_space c = (c \<in> {CHR '' '', CHR 0x09, CHR 0x0A, CHR 0x0B, CHR 0x0C, CHR 0x0D})"

definition is_digit :: "char \<Rightarrow> bool" where
  "is_digit c = (c \<in> set ''0123456789'')"

text \<open>\<^verbatim>\<open>s.split()\<close>: the maximal runs of non-whitespace characters, in order.\<close>

primrec split_aux :: "string \<Rightarrow> string \<Rightarrow> string list" where
  "split_aux [] w = (if w = [] then [] else [w])"
| "split_aux (c # cs) w =
     (if is_space c then (if w = [] then split_aux cs [] else w # split_aux cs [])
      else split_aux cs (w @ [c]))"

definition py_split :: "string \<Rightarrow> string list" where
  "py_split s = split_aux s []"

text \<open>\<^verbatim>\<open>word.replace("D", "e")\<close>.\<close>

definition replace_D :: "string \<Rightarrow> string" where
  "replace_D w = map (\<lambda>c. if c = CHR ''D'' then CHR ''e'' else c) w"

text \<open>\<^verbatim>\<open>int(s)\<close> on a token without whitespace: an optional sign and at least one digit.\<close>

definition digit_val :: "char \<Rightarrow> nat" where
  "digit_val c = length (takeWhile (\<lambda>d. d \<noteq> c) ''0123456789'')"

definition digits_val :: "string \<Rightarrow> nat" where
  "digits_val ds = foldl (\<lambda>a c. 10 * a + digit_val c) 0 ds"

definition py_nat :: "string \<Rightarrow> nat option" where
  "py_nat ds = (if ds \<noteq> [] \<and> list_all is_digit ds then Some (digits_val ds) else None)"

definition py_int :: "string \<Rightarrow> int option" where
  "py_int s =
     (case s of
        [] \<Rightarrow> None
      | c # cs \<Rightarrow>
          if c = CHR ''-'' then map_option (\<lambda>n. - int n) (py_nat cs)
          else if c = CHR ''+'' then map_option int (py_nat cs)
          else map_option int (py_nat s))"

subsection \<open>The regular expressions of the parsers\<close>

text \<open>
  Every pattern compiled in the file is a sequence of literal characters, \<^verbatim>\<open>.\<close>,
  and greedy repetitions \<^verbatim>\<open>\s+\<close>, \<^verbatim>\<open>\S+\<close>, \<^verbatim>\<open>\d+\<close>, some of them named groups.
  \<open>re_match\<close> is the backtracking matcher at a fixed start (longest repetition first),
  \<open>re_search\<close> tries the start positions from left to right as \<^verbatim>\<open>re.search\<close> does.\<close>

datatype cclass = Space | NonSpace | Digit

datatype atom = Lit char | AnyChar | Plus cclass | Group string cclass

type_synonym regex = "atom list"

fun in_class :: "cclass \<Rightarrow> char \<Rightarrow> bool" where
  "in_class Space c = is_space c"
| "in_class NonSpace c = (\<not> is_space c)"
| "in_class Digit c = is_digit c"

primrec first_some :: "('a \<Rightarrow> 'b option) \<Rightarrow> 'a list \<Rightarrow> 'b option" where
  "first_some f [] = None"
| "first_some f (k # ks) = (case f k of Some r \<Rightarrow> Some r | None \<Rightarrow> first_some f ks)"

definition run_lengths :: "cclass \<Rightarrow> string \<Rightarrow> nat list" where
  "run_lengths cl s = rev [1 ..< Suc (length (takeWhile (in_class cl) s))]"

primrec re_match :: "regex \<Rightarrow> string \<Rightarrow> (string \<times> string) list option" where
  "re_match [] s = Some []"
| "re_match (a # rs) s =
     (case a of
        Lit c \<Rightarrow> (case s of [] \<Rightarrow> None | x # xs \<Rightarrow> if x = c then re_match rs xs else None)
      | AnyChar \<Rightarrow> (case s of [] \<Rightarrow> None | x # xs \<Rightarrow> if x \<noteq> CHR 0x0A then re_match rs xs else None)
      | Plus cl \<Rightarrow> first_some (\<lambda>k. re_match rs (drop k s)) (run_lengths cl s)
      | Group name cl \<Rightarrow>
          first_some (\<lambda>k. map_option (\<lambda>gs. (name, take k s) # gs) (re_match rs (drop k s)))
            (run_lengths cl s))"

definition re_search :: "regex \<Rightarrow> string \<Rightarrow> (string \<times> string) list option" where
  "re_search r s = first_some (\<lambda>i. re_match r (drop i s)) [0 ..< Suc (length s)]"

definition lit :: "string \<Rightarrow> regex" where
  "lit s = map Lit s"

definition matches :: "regex option \<Rightarrow> string \<Rightarrow> bool" where
  "matches r line = (case r of None \<Rightarrow> False | Some re \<Rightarrow> re_search re line \<noteq> None)"

section \<open>LinkParser\<close>

text \<open>
  A parser object: the fields set by the constructors (\<open>link\<close>, \<open>activator\<close>,
  \<open>deactivator\<close>, \<open>condition\<close>), the flags set by \<^verbatim>\<open>reset\<close> (\<open>active\<close>, \<open>in_link\<close>) and
  the fields of the concrete subclass (\<open>data\<close>). The methods a subclass overrides are a
  record of functions.\<close>

record 'c LinkParser =
  link :: string
  activator :: "regex option"
  deactivator :: "regex option"
  condition :: "bool option"
  active :: bool
  in_link :: bool
  data :: 'c

record 'c collector =
  start_collecting :: "'c \<Rightarrow> error + 'c"
  collect :: "string \<Rightarrow> 'c \<Rightarrow> error + 'c"
  stop_collecting :: "'c \<Rightarrow> error + 'c"

definition gate_open :: "'c LinkParser \<Rightarrow> bool" where
  "gate_open p = (case condition p of None \<Rightarrow> True | Some b \<Rightarrow> b)"

text \<open>
  Modelled from the spec: \<^verbatim>\<open>MultiLineParser\<close> of \<^verbatim>\<open>pychem.interfaces.output_parsers\<close>
  (its \<^verbatim>\<open>reset\<close> and \<^verbatim>\<open>parse\<close>) is imported by the file and is not part of the sources.
  Section 4.2: without an activator every line handed over while the section is open is
  collected, subject to the gating predicate; with an activator, a deactivator match
  while collecting calls \<^verbatim>\<open>stop_collecting\<close> and then clears the flag, an activator match
  while not collecting calls \<^verbatim>\<open>start_collecting\<close> and then sets the flag unless the gate
  suppresses it, and every other line while collecting goes to \<^verbatim>\<open>collect\<close>.\<close>

definition MultiLineParser_reset :: "'c LinkParser \<Rightarrow> 'c LinkParser" where
  "MultiLineParser_reset p = p\<lparr>active := False\<rparr>"

definition MultiLineParser_parse ::
  "'c collector \<Rightarrow> 'c LinkParser \<Rightarrow> string \<Rightarrow> error + 'c LinkParser" where
  "MultiLineParser_parse ops p line =
     (if activator p = None then
        (if gate_open p then
           (case collect ops line (data p) of Inl e \<Rightarrow> Inl e | Inr d \<Rightarrow> Inr (p\<lparr>data := d\<rparr>))
         else Inr p)
      else if active p then
        (if matches (deactivator p) line then
           (case stop_collecting ops (data p) of
              Inl e \<Rightarrow> Inl e
            | Inr d \<Rightarrow> Inr (p\<lparr>data := d, active := False\<rparr>))
         else
           (case collect ops line (data p) of Inl e \<Rightarrow> Inl e | Inr d \<Rightarrow> Inr (p\<lparr>data := d\<rparr>)))
      else if matches (activator p) line \<and> gate_open p then
        (case start_collecting ops (data p) of
           Inl e \<Rightarrow> Inl e
         | Inr d \<Rightarrow> Inr (p\<lparr>data := d, active := True\<rparr>))
      else Inr p)"

text \<open>The window's flag as section 3 defines it.\<close>

definition collecting :: "'c LinkParser \<Rightarrow> bool" where
  "collecting p = (if activator p = None then in_link p \<and> gate_open p else active p)"

text \<open>\<^verbatim>\<open>LinkParser.reset\<close> and \<^verbatim>\<open>LinkParser.parse\<close>, with the two marker tests named.\<close>

definition LinkParser_reset :: "'c LinkParser \<Rightarrow> 'c LinkParser" where
  "LinkParser_reset p = (MultiLineParser_reset p)\<lparr>in_link := False\<rparr>"

definition is_leave :: "string \<Rightarrow> string \<Rightarrow> bool" where
  "is_leave lk line =
     (py_slice line 0 11 = '' Leave Link'' \<and> py_slice line 13 (13 + int (length lk)) = lk)"

definition is_enter :: "string \<Rightarrow> string \<Rightarrow> bool" where
  "is_enter lk line =
     (py_slice line 0 8 = '' (Enter '' \<and> py_slice line (- 6 - int (length lk)) (- 6) = lk)"

definition LinkParser_parse ::
  "'c collector \<Rightarrow> 'c LinkParser \<Rightarrow> string \<Rightarrow> error + 'c LinkParser" where
  "LinkParser_parse ops p line =
     (let p1 = (if is_leave (link p) line then p\<lparr>in_link := False\<rparr> else p)
      in case (if in_link p1 then MultiLineParser_parse ops p1 line else Inr p1) of
           Inl e \<Rightarrow> Inl e
         | Inr p2 \<Rightarrow> Inr (if is_enter (link p) line then p2\<lparr>in_link := True\<rparr> else p2))"

text \<open>The driver feeds the lines in order; an exception ends the pass.\<close>

fun feed :: "'c collector \<Rightarrow> 'c LinkParser \<Rightarrow> string list \<Rightarrow> error + 'c LinkParser" where
  "feed ops p [] = Inr p"
| "feed ops p (l # ls) =
     (case LinkParser_parse ops p l of Inl e \<Rightarrow> Inl e | Inr p' \<Rightarrow> feed ops p' ls)"

text \<open>A collector that only records the lines it is given.\<close>

definition recorder :: "string list collector" where
  "recorder = \<lparr>start_collecting = Inr, collect = (\<lambda>line d. Inr (d @ [line])), stop_collecting = Inr\<rparr>"

section \<open>The concrete parsers\<close>

text \<open>
  \<^verbatim>\<open>float\<close> is Python's builtin: a parameter \<open>fl\<close> of the model, \<open>None\<close> where it raises
  ValueError. \<^verbatim>\<open>from_angstrom\<close> of \<^verbatim>\<open>pychem.units\<close> is a parameter \<open>fa\<close>.
  A field that holds a Python list until \<^verbatim>\<open>stop_collecting\<close> replaces it by a Numeric
  array (which has no \<^verbatim>\<open>append\<close>) is a \<open>pyseq\<close>.\<close>

datatype 'a pyseq = PyList "'a list" | NumArray "'a list"

fun items :: "'a pyseq \<Rightarrow> 'a list" where
  "items (PyList xs) = xs"
| "items (NumArray xs) = xs"

primrec floats :: "(string \<Rightarrow> 'v option) \<Rightarrow> string list \<Rightarrow> error + 'v list" where
  "floats fl [] = Inr []"
| "floats fl (w # ws) =
     (case fl w of
        None \<Rightarrow> Inl ValueError
      | Some v \<Rightarrow> (case floats fl ws of Inl e \<Rightarrow> Inl e | Inr vs \<Rightarrow> Inr (v # vs)))"

text \<open>\<^verbatim>\<open>match.group(name)\<close>; every group of the patterns below takes part in every match.\<close>

definition group :: "(string \<times> string) list \<Rightarrow> string \<Rightarrow> string" where
  "group gs name = (case map_of gs name of Some t \<Rightarrow> t | None \<Rightarrow> [])"

definition LinkParser_init ::
  "string \<Rightarrow> regex option \<Rightarrow> regex option \<Rightarrow> bool option \<Rightarrow> 'c \<Rightarrow> 'c LinkParser" where
  "LinkParser_init lk act deact cond d =
     LinkParser_reset \<lparr>link = lk, activator = act, deactivator = deact, condition = cond,
       active = False, in_link = False, data = d\<rparr>"

subsection \<open>HessianParser\<close>

definition hessian_activator :: regex where
  "hessian_activator = lit ''Force constants in Cartesian coordinates:''"

definition hessian_deactivator :: regex where
  "hessian_deactivator = lit ''Force constants in internal coordinates:''"

definition HessianParser_start_collecting :: "'v list pyseq \<Rightarrow> error + 'v list pyseq" where
  "HessianParser_start_collecting h = Inr (PyList [])"

definition HessianParser_collect ::
  "(string \<Rightarrow> 'v option) \<Rightarrow> string \<Rightarrow> 'v list pyseq \<Rightarrow> error + 'v list pyseq" where
  "HessianParser_collect fl line h =
     (case py_split line of
        [] \<Rightarrow> Inl IndexError
      | [w0] \<Rightarrow> Inl IndexError
      | w0 # w1 # ws \<Rightarrow>
          if CHR ''D'' \<in> set w1 then
            (case py_int w0 of
               None \<Rightarrow> Inl ValueError
             | Some row_number \<Rightarrow>
                 (case h of
                    PyList rows \<Rightarrow>
                      if row_number \<ge> int (length rows) then
                        (case floats fl (map replace_D (w1 # ws)) of
                           Inl e \<Rightarrow> Inl e
                         | Inr vs \<Rightarrow> Inr (PyList (rows @ [vs])))
                      else
                        (case py_index rows (row_number - 1) of
                           None \<Rightarrow> Inl IndexError
                         | Some i \<Rightarrow>
                             (case floats fl (map replace_D (w1 # ws)) of
                                Inl e \<Rightarrow> Inl e
                              | Inr vs \<Rightarrow> Inr (PyList (rows[i := rows ! i @ vs]))))
                  | NumArray m \<Rightarrow>
                      if row_number \<ge> int (length m) then Inl AttributeError
                      else
                        (case py_index m (row_number - 1) of
                           None \<Rightarrow> Inl IndexError
                         | Some i \<Rightarrow> Inl AttributeError)))
          else Inr h)"

definition zeros :: "nat \<Rightarrow> 'v::zero list list" where
  "zeros n = replicate n (replicate n 0)"

definition set_entry :: "'v list list \<Rightarrow> nat \<Rightarrow> nat \<Rightarrow> 'v \<Rightarrow> 'v list list" where
  "set_entry m i j v = m[i := (m ! i)[j := v]]"

text \<open>The inner loop over \<^verbatim>\<open>enumerate(row)\<close>, from column \<open>c\<close> on.\<close>

fun fill_row :: "nat \<Rightarrow> nat \<Rightarrow> 'v list \<Rightarrow> 'v list list \<Rightarrow> error + 'v list list" where
  "fill_row r c [] m = Inr m"
| "fill_row r c (v # vs) m =
     (if r < length m \<and> c < length m then
        fill_row r (Suc c) vs
          (let m1 = set_entry m r c v in if r \<noteq> c then set_entry m1 c r v else m1)
      else Inl IndexError)"

text \<open>The outer loop over \<^verbatim>\<open>enumerate(self.hessian)\<close>, from row \<open>r\<close> on.\<close>

fun fill_rows :: "nat \<Rightarrow> 'v list list \<Rightarrow> 'v list list \<Rightarrow> error + 'v list list" where
  "fill_rows r [] m = Inr m"
| "fill_rows r (row # rows) m =
     (case fill_row r 0 row m of Inl e \<Rightarrow> Inl e | Inr m' \<Rightarrow> fill_rows (Suc r) rows m')"

definition HessianParser_stop_collecting ::
  "'v::zero list pyseq \<Rightarrow> error + 'v list pyseq" where
  "HessianParser_stop_collecting h =
     (case fill_rows 0 (items h) (zeros (length (items h))) of
        Inl e \<Rightarrow> Inl e
      | Inr m \<Rightarrow> Inr (NumArray m))"

definition HessianParser_ops :: "(string \<Rightarrow> 'v option) \<Rightarrow> ('v::zero) list pyseq collector" where
  "HessianParser_ops fl =
     \<lparr>start_collecting = HessianParser_start_collecting,
      collect = HessianParser_collect fl,
      stop_collecting = HessianParser_stop_collecting\<rparr>"

definition HessianParser :: "bool option \<Rightarrow> 'v list pyseq LinkParser" where
  "HessianParser cond =
     LinkParser_init ''716'' (Some hessian_activator) (Some hessian_deactivator) cond (PyList [])"

subsection \<open>FrequenciesParser\<close>

definition FrequenciesParser_collect ::
  "(string \<Rightarrow> 'v option) \<Rightarrow> string \<Rightarrow> string \<Rightarrow> 'v list \<Rightarrow> error + 'v list" where
  "FrequenciesParser_collect fl pattern line frequencies =
     (if take (length pattern) line = pattern then
        (case floats fl (py_split (drop (length pattern) line)) of
           Inl e \<Rightarrow> Inl e
         | Inr vs \<Rightarrow> Inr (frequencies @ vs))
      else Inr frequencies)"

definition FrequenciesParser_ops :: "(string \<Rightarrow> 'v option) \<Rightarrow> string \<Rightarrow> 'v list collector" where
  "FrequenciesParser_ops fl pattern =
     \<lparr>start_collecting = Inr, collect = FrequenciesParser_collect fl pattern, stop_collecting = Inr\<rparr>"

definition FrequenciesParser :: "bool option \<Rightarrow> 'v list LinkParser" where
  "FrequenciesParser cond = LinkParser_init ''716'' None None cond []"

definition low_frequencies_pattern :: string where
  "low_frequencies_pattern = '' Low frequencies ---''"

definition selected_frequencies_pattern :: string where
  "selected_frequencies_pattern = '' Frequencies --''"

subsection \<open>MassParser\<close>

definition mass_activator :: regex where
  "mass_activator =
     lit ''Temperature'' @ [Plus Space, Plus NonSpace, Plus Space] @ lit ''Kelvin'' @
     [AnyChar, Plus Space] @ lit ''Pressure'' @ [Plus Space, Plus NonSpace, Plus Space] @
     lit ''Atm'' @ [AnyChar]"

definition mass_deactivator :: regex where
  "mass_deactivator =
     lit ''Molecular mass:'' @ [Plus Space, Plus NonSpace, Plus Space] @ lit ''amu'' @ [AnyChar]"

definition mass_re :: regex where
  "mass_re =
     lit ''Atom'' @ [Plus Space, Plus Digit, Plus Space] @ lit ''has atomic number'' @
     [Plus Space, Plus Digit, Plus Space] @ lit ''and mass'' @ [Plus Space, Group ''mass'' NonSpace]"

definition MassParser_start_collecting :: "'v pyseq \<Rightarrow> error + 'v pyseq" where
  "MassParser_start_collecting masses = Inr (PyList [])"

definition MassParser_collect ::
  "(string \<Rightarrow> 'v option) \<Rightarrow> string \<Rightarrow> 'v pyseq \<Rightarrow> error + 'v pyseq" where
  "MassParser_collect fl line masses =
     (case re_search mass_re line of
        None \<Rightarrow> Inr masses
      | Some gs \<Rightarrow>
          (case masses of
             NumArray a \<Rightarrow> Inl AttributeError
           | PyList ms \<Rightarrow>
               (case fl (group gs ''mass'') of
                  None \<Rightarrow> Inl ValueError
                | Some v \<Rightarrow> Inr (PyList (ms @ [v])))))"

definition MassParser_stop_collecting :: "'v pyseq \<Rightarrow> error + 'v pyseq" where
  "MassParser_stop_collecting masses = Inr (NumArray (items masses))"

definition MassParser_ops :: "(string \<Rightarrow> 'v option) \<Rightarrow> 'v pyseq collector" where
  "MassParser_ops fl =
     \<lparr>start_collecting = MassParser_start_collecting,
      collect = MassParser_collect fl,
      stop_collecting = MassParser_stop_collecting\<rparr>"

definition MassParser :: "bool option \<Rightarrow> 'v pyseq LinkParser" where
  "MassParser cond =
     LinkParser_init ''716'' (Some mass_activator) (Some mass_deactivator) cond (PyList [])"

subsection \<open>CoordinatesParser\<close>

definition coordinates_activator :: regex where
  "coordinates_activator = lit ''Input orientation:''"

definition coordinates_deactivator :: regex where
  "coordinates_deactivator = lit ''Distance matrix (angstroms):''"

definition coordinates_re :: regex where
  "coordinates_re =
     [Plus Digit, Plus Space, Plus Digit, Plus Space, Plus Digit, Plus Space,
      Group ''x'' NonSpace, Plus Space, Group ''y'' NonSpace, Plus Space, Group ''z'' NonSpace]"

text \<open>\<^verbatim>\<open>current_coordinates\<close> exists only once \<^verbatim>\<open>start_collecting\<close> has run.\<close>

record 'v coordinates_data =
  coordinates :: "'v list list list"
  current_coordinates :: "'v list list option"

definition CoordinatesParser_start_collecting ::
  "'v coordinates_data \<Rightarrow> error + 'v coordinates_data" where
  "CoordinatesParser_start_collecting d = Inr (d\<lparr>current_coordinates := Some []\<rparr>)"

definition CoordinatesParser_collect ::
  "(string \<Rightarrow> 'v option) \<Rightarrow> ('v \<Rightarrow> 'v) \<Rightarrow> string \<Rightarrow> 'v coordinates_data \<Rightarrow>
     error + 'v coordinates_data" where
  "CoordinatesParser_collect fl fa line d =
     (case re_search coordinates_re line of
        None \<Rightarrow> Inr d
      | Some gs \<Rightarrow>
          (case current_coordinates d of
             None \<Rightarrow> Inl AttributeError
           | Some cur \<Rightarrow>
               (case floats fl [group gs ''x'', group gs ''y'', group gs ''z''] of
                  Inl e \<Rightarrow> Inl e
                | Inr vs \<Rightarrow> Inr (d\<lparr>current_coordinates := Some (cur @ [map fa vs])\<rparr>))))"

definition CoordinatesParser_stop_collecting ::
  "'v coordinates_data \<Rightarrow> error + 'v coordinates_data" where
  "CoordinatesParser_stop_collecting d =
     (case current_coordinates d of
        None \<Rightarrow> Inl AttributeError
      | Some cur \<Rightarrow> Inr (d\<lparr>coordinates := coordinates d @ [cur]\<rparr>))"

definition CoordinatesParser_ops ::
  "(string \<Rightarrow> 'v option) \<Rightarrow> ('v \<Rightarrow> 'v) \<Rightarrow> 'v coordinates_data collector" where
  "CoordinatesParser_ops fl fa =
     \<lparr>start_collecting = CoordinatesParser_start_collecting,
      collect = CoordinatesParser_collect fl fa,
      stop_collecting = CoordinatesParser_stop_collecting\<rparr>"

definition CoordinatesParser :: "bool option \<Rightarrow> 'v coordinates_data LinkParser" where
  "CoordinatesParser cond =
     LinkParser_init ''202'' (Some coordinates_activator) (Some coordinates_deactivator) cond
       \<lparr>coordinates = [], current_coordinates = None\<rparr>"

definition CoordinatesParser_result :: "'v coordinates_data \<Rightarrow> 'v list list list" where
  "CoordinatesParser_result d = coordinates d"

subsection \<open>EnergyParser\<close>

definition energy_re :: regex where
  "energy_re =
     lit ''SCF Done:'' @ [Plus Space, Lit CHR ''E'', Plus NonSpace, Plus Space, Lit CHR ''='',
       Plus Space, Group ''energy'' NonSpace, Plus Space,
       Lit CHR ''A'', AnyChar, Lit CHR ''U'', AnyChar]"

definition EnergyParser_collect ::
  "(string \<Rightarrow> 'v option) \<Rightarrow> string \<Rightarrow> 'v list \<Rightarrow> error + 'v list" where
  "EnergyParser_collect fl line energies =
     (case re_search energy_re line of
        None \<Rightarrow> Inr energies
      | Some gs \<Rightarrow>
          (case fl (group gs ''energy'') of
             None \<Rightarrow> Inl ValueError
           | Some v \<Rightarrow> Inr (energies @ [v])))"

definition EnergyParser_ops :: "(string \<Rightarrow> 'v option) \<Rightarrow> 'v list collector" where
  "EnergyParser_ops fl =
     \<lparr>start_collecting = Inr, collect = EnergyParser_collect fl, stop_collecting = Inr\<rparr>"

definition EnergyParser :: "bool option \<Rightarrow> 'v list LinkParser" where
  "EnergyParser cond = LinkParser_init ''502'' None None cond []"

subsection \<open>Decimal literals\<close>

text \<open>
  The decimal literals \<^verbatim>\<open>float\<close> accepts (sign, digits, point, exponent), read as the
  number they denote; the instance of \<open>fl\<close> in the examples. It is not \<^verbatim>\<open>float\<close> itself:
  it rejects \<^verbatim>\<open>nan\<close> and \<^verbatim>\<open>inf\<close>, and it neither rounds to a double nor overflows. The
  general theorems take \<open>fl\<close> as a parameter.\<close>

definition mantissa :: "string \<Rightarrow> real option" where
  "mantissa s =
     (let ip = takeWhile is_digit s
      in case dropWhile is_digit s of
           [] \<Rightarrow> if ip = [] then None else Some (real (digits_val ip))
         | c # fp \<Rightarrow>
             if c = CHR ''.'' \<and> list_all is_digit fp \<and> (ip \<noteq> [] \<or> fp \<noteq> [])
             then Some (real (digits_val ip) + real (digits_val fp) / 10 ^ length fp)
             else None)"

definition scale :: "real \<Rightarrow> int \<Rightarrow> real" where
  "scale a k = (if 0 \<le> k then a * 10 ^ nat k else a / 10 ^ nat (- k))"

definition is_exp_mark :: "char \<Rightarrow> bool" where
  "is_exp_mark c = (c = CHR ''e'' \<or> c = CHR ''E'')"

definition unsigned_float :: "string \<Rightarrow> real option" where
  "unsigned_float s =
     (case dropWhile (\<lambda>c. \<not> is_exp_mark c) s of
        [] \<Rightarrow> mantissa s
      | c # ex \<Rightarrow>
          (case mantissa (takeWhile (\<lambda>c. \<not> is_exp_mark c) s) of
             None \<Rightarrow> None
           | Some a \<Rightarrow> map_option (scale a) (py_int ex)))"

definition dec_float :: "string \<Rightarrow> real option" where
  "dec_float s =
     (case s of
        [] \<Rightarrow> None
      | c # cs \<Rightarrow>
          if c = CHR ''-'' then map_option uminus (unsigned_float cs)
          else if c = CHR ''+'' then unsigned_float cs
          else unsigned_float s)"

section \<open>Episodes and example inputs\<close>

text \<open>
  One collection episode is a call of \<^verbatim>\<open>start_collecting\<close>, a call of \<^verbatim>\<open>collect\<close> for each line
  and a call of \<^verbatim>\<open>stop_collecting\<close>.\<close>

fun collect_all :: "'c collector \<Rightarrow> string list \<Rightarrow> 'c \<Rightarrow> error + 'c" where
  "collect_all ops [] d = Inr d"
| "collect_all ops (l # ls) d =
     (case collect ops l d of Inl e \<Rightarrow> Inl e | Inr d' \<Rightarrow> collect_all ops ls d')"

definition episode :: "'c collector \<Rightarrow> string list \<Rightarrow> 'c \<Rightarrow> error + 'c" where
  "episode ops ls d =
     (case start_collecting ops d of
        Inl e \<Rightarrow> Inl e
      | Inr d1 \<Rightarrow>
          (case collect_all ops ls d1 of Inl e \<Rightarrow> Inl e | Inr d2 \<Rightarrow> stop_collecting ops d2))"

fun episodes :: "'c collector \<Rightarrow> string list list \<Rightarrow> 'c \<Rightarrow> error + 'c" where
  "episodes ops [] d = Inr d"
| "episodes ops (ls # lss) d =
     (case episode ops ls d of Inl e \<Rightarrow> Inl e | Inr d' \<Rightarrow> episodes ops lss d')"

text \<open>Marker lines as Gaussian prints them; a line read from the file ends in a newline.\<close>

definition enter_502 :: string where
  "enter_502 = '' (Enter /usr/local/g98/l502.exe)'' @ [CHR 0x0A]"

definition leave_502 :: string where
  "leave_502 = '' Leave Link  502 at Thu Mar 10 12:00:00 2005, MaxMem=    6291456 cpu:       1.0'' @ [CHR 0x0A]"



definition scf_line_1 :: string where
  "scf_line_1 = ''SCF Done: E(...) = -1.234567 A.U.''"

definition scf_line_2 :: string where
  "scf_line_2 = ''SCF Done: E(...) = -1.300000 A.U.''"

definition orientation_line :: string where
  "orientation_line = ''  Input orientation:''"

definition atom_line_1 :: string where
  "atom_line_1 = '' 1 6 0 0.000000 1.500000 -0.250000''"

definition atom_line_2 :: string where
  "atom_line_2 = '' 2 1 0 1.000000 0.500000 0.750000''"

text \<open>
  A log with repeated cycles of one section: the lines before the entry marker, the entry
  marker, the lines of the section and the exit marker.\<close>

record cycle =
  c_before :: "string list"
  c_enter :: string
  c_body :: "string list"
  c_leave :: string

definition cycle_lines :: "cycle \<Rightarrow> string list" where
  "cycle_lines c = c_before c @ [c_enter c] @ c_body c @ [c_leave c]"

definition well_formed_cycle :: "string \<Rightarrow> cycle \<Rightarrow> bool" where
  "well_formed_cycle lk c =
     (list_all (\<lambda>x. \<not> is_enter lk x) (c_before c) \<and> is_enter lk (c_enter c) \<and>
      list_all (\<lambda>x. \<not> is_leave lk x) (c_body c) \<and> is_leave lk (c_leave c))"

text \<open>The values of the lines that match the energy pattern, in order.\<close>

definition energy_values :: "(string \<Rightarrow> 'v option) \<Rightarrow> string list \<Rightarrow> 'v list" where
  "energy_values fl ls =
     concat (map (\<lambda>l. case re_search energy_re l of
                         None \<Rightarrow> []
                       | Some gs \<Rightarrow> (case fl (group gs ''energy'') of None \<Rightarrow> [] | Some v \<Rightarrow> [v])) ls)"

definition energies_parse :: "(string \<Rightarrow> 'v option) \<Rightarrow> string list \<Rightarrow> bool" where
  "energies_parse fl ls =
     list_all (\<lambda>l. case re_search energy_re l of
                      None \<Rightarrow> True
                    | Some gs \<Rightarrow> fl (group gs ''energy'') \<noteq> None) ls"

definition cycle_a :: cycle where
  "cycle_a = \<lparr>c_before = [scf_line_2], c_enter = enter_502, c_body = [scf_line_1], c_leave = leave_502\<rparr>"

definition cycle_b :: cycle where
  "cycle_b = \<lparr>c_before = [], c_enter = enter_502, c_body = ['' Cycle 1'', scf_line_2], c_leave = leave_502\<rparr>"


text \<open>The converted triples of the lines that match the coordinates pattern, in order.\<close>

definition coordinate_rows ::
  "(string \<Rightarrow> 'v option) \<Rightarrow> ('v \<Rightarrow> 'v) \<Rightarrow> string list \<Rightarrow> 'v list list" where
  "coordinate_rows fl fa ls =
     concat (map (\<lambda>l. case re_search coordinates_re l of
                         None \<Rightarrow> []
                       | Some gs \<Rightarrow>
                           (case floats fl [group gs ''x'', group gs ''y'', group gs ''z''] of
                              Inl e \<Rightarrow> []
                            | Inr vs \<Rightarrow> [map fa vs])) ls)"

definition coordinates_parse :: "(string \<Rightarrow> 'v option) \<Rightarrow> string list \<Rightarrow> bool" where
  "coordinates_parse fl ls =
     list_all (\<lambda>l. case re_search coordinates_re l of
                      None \<Rightarrow> True
                    | Some gs \<Rightarrow>
                        fl (group gs ''x'') \<noteq> None \<and> fl (group gs ''y'') \<noteq> None \<and>
                        fl (group gs ''z'') \<noteq> None) ls"

definition coordinates_reset :: "real coordinates_data" where
  "coordinates_reset = \<lparr>coordinates = [], current_coordinates = None\<rparr>"

definition mass_line_1 :: string where
  "mass_line_1 = '' Atom 1 has atomic number 1 and mass 1.00783''"

definition mass_line_2 :: string where
  "mass_line_2 = '' Atom 1 has atomic number 6 and mass 12.00000''"

text \<open>
  The force constants of a system with two coordinates, the second row given on two
  lines, and of one with seven coordinates in Gaussian's layout: column blocks of five,
  each with a header line of column numbers.\<close>

definition hessian_lines_2 :: "string list" where
  "hessian_lines_2 = [''  1  0.1D+01'', ''  2  0.2D+01'', ''  2  0.3D+01'']"

definition hessian_lines_7 :: "string list" where
  "hessian_lines_7 =
     [''         1      2      3      4      5'',
      ''  1  0.1D+01'',
      ''  2  0.1D+01  0.2D+01'',
      ''  3  0.1D+01  0.2D+01  0.3D+01'',
      ''  4  0.1D+01  0.2D+01  0.3D+01  0.4D+01'',
      ''  5  0.1D+01  0.2D+01  0.3D+01  0.4D+01  0.5D+01'',
      ''  6  0.1D+01  0.2D+01  0.3D+01  0.4D+01  0.5D+01'',
      ''  7  0.1D+01  0.2D+01  0.3D+01  0.4D+01  0.5D+01'',
      ''         6      7'',
      ''  6  0.6D+01'',
      ''  7  0.6D+01  0.7D+01'']"

text \<open>A square array that equals its transpose.\<close>

definition symmetric_square :: "nat \<Rightarrow> 'v list list \<Rightarrow> bool" where
  "symmetric_square n m =
     (length m = n \<and> (\<forall>i < n. length (m ! i) = n) \<and> (\<forall>i < n. \<forall>j < n. m ! i ! j = m ! j ! i))"

section \<open>Properties of the section tracker\<close>

lemma py_slice_prefix: "py_slice xs 0 (int k) = take k xs"
  by (cases "k \<le> length xs") (simp_all add: py_slice_def norm_index_def min_def)

lemma is_leave_prefix: "is_leave lk line \<Longrightarrow> take 11 line = '' Leave Link''"
  using py_slice_prefix [of line 11] by (simp add: is_leave_def)

lemma is_enter_prefix: "is_enter lk line \<Longrightarrow> take 8 line = '' (Enter ''"
  using py_slice_prefix [of line 8] by (simp add: is_enter_def)

text \<open>
  The exit marker starts with \<^verbatim>\<open>" Leave Link"\<close> and the entry marker with \<^verbatim>\<open>" (Enter "\<close>: they
  differ in their second character, so no line is both, and the order of the two updates
  of \<open>in_link\<close> cannot be observed on any line.\<close>

lemma leave_not_enter: "is_leave lk line \<Longrightarrow> \<not> is_enter lk line"
proof
  assume l: "is_leave lk line" and e: "is_enter lk line"
  have "take 2 (take 11 line) = take 2 (take 8 line)" by simp
  then show False
    using is_leave_prefix [OF l] is_enter_prefix [OF e] by simp
qed

lemma is_enter_502: "is_enter ''502'' enter_502"
  by (simp add: is_enter_def enter_502_def py_slice_def norm_index_def)

lemma not_leave_enter_502: "\<not> is_leave ''502'' enter_502"
  by (simp add: is_leave_def enter_502_def py_slice_def norm_index_def)

lemma is_leave_502: "is_leave ''502'' leave_502"
  by (simp add: is_leave_def leave_502_def py_slice_def norm_index_def)

lemma not_enter_leave_502: "\<not> is_enter ''502'' leave_502"
  by (simp add: is_enter_def leave_502_def py_slice_def norm_index_def)

section \<open>What reaches the collector\<close>

lemma init_simps:
  "link (LinkParser_init lk a d c x) = lk"
  "activator (LinkParser_init lk a d c x) = a"
  "deactivator (LinkParser_init lk a d c x) = d"
  "condition (LinkParser_init lk a d c x) = c"
  "active (LinkParser_init lk a d c x) = False"
  "in_link (LinkParser_init lk a d c x) = False"
  "data (LinkParser_init lk a d c x) = x"
  by (simp_all add: LinkParser_init_def LinkParser_reset_def MultiLineParser_reset_def)

text \<open>
  C1 (as amended). With the recording collector, a line that \<^verbatim>\<open>LinkParser.parse\<close> passes to
  \<^verbatim>\<open>collect\<close> is appended to the record, and this happens only if the parser was inside
  the section before the line, the line is not the exit marker, and the window was
  collecting. So an exit marker is never collected, and an entry marker is not collected
  when the parser was outside the section before it.\<close>

theorem collect_only_inside_and_collecting:
  assumes "LinkParser_parse recorder p line = Inr p'" and "data p' \<noteq> data p"
  shows "data p' = data p @ [line] \<and> in_link p \<and> \<not> is_leave (link p) line \<and> collecting p"
  using assms
  by (auto simp: LinkParser_parse_def MultiLineParser_parse_def recorder_def collecting_def Let_def
      split: if_splits)

theorem collect_only_inside_and_collecting_witness:
  "LinkParser_parse recorder ((LinkParser_init ''502'' None None None [])\<lparr>in_link := True\<rparr>) ''SCF''
     = Inr ((LinkParser_init ''502'' None None None [])\<lparr>in_link := True, data := [''SCF'']\<rparr>) \<and>
   data ((LinkParser_init ''502'' None None None [])\<lparr>in_link := True, data := [''SCF'']\<rparr>)
     = data ((LinkParser_init ''502'' None None None [])\<lparr>in_link := True\<rparr>) @ [''SCF''] \<and>
   in_link ((LinkParser_init ''502'' None None None [] :: string list LinkParser)\<lparr>in_link := True\<rparr>) \<and>
   \<not> is_leave ''502'' ''SCF'' \<and>
   collecting ((LinkParser_init ''502'' None None None [] :: string list LinkParser)\<lparr>in_link := True\<rparr>)"
proof -
  let ?p = "(LinkParser_init ''502'' None None None [] :: string list LinkParser)\<lparr>in_link := True\<rparr>"
  let ?q = "(LinkParser_init ''502'' None None None [] :: string list LinkParser)\<lparr>in_link := True, data := [''SCF'']\<rparr>"
  have nl: "\<not> is_leave ''502'' ''SCF''"
    by (simp add: is_leave_def py_slice_def norm_index_def)
  have ne: "\<not> is_enter ''502'' ''SCF''"
    by (simp add: is_enter_def py_slice_def norm_index_def)
  have h1: "LinkParser_parse recorder ?p ''SCF'' = Inr ?q"
    using nl ne
    by (simp add: LinkParser_parse_def MultiLineParser_parse_def recorder_def gate_open_def init_simps)
  have h2: "data ?q \<noteq> data ?p" by (simp add: init_simps)
  show ?thesis
    using collect_only_inside_and_collecting [OF h1 h2] h1 by (simp add: init_simps)
qed

text \<open>
  C1 as stated fails: an entry marker met while the parser is already inside the section
  is an ordinary line. Fed two entry markers in a row, a parser without activator
  collects the second one.\<close>

theorem entry_marker_collected_when_inside:
  "is_enter ''502'' enter_502 \<and>
   feed recorder (LinkParser_init ''502'' None None None []) [enter_502, enter_502] =
     Inr ((LinkParser_init ''502'' None None None [])\<lparr>in_link := True, data := [enter_502]\<rparr>)"
  using is_enter_502 not_leave_enter_502
  by (simp add: LinkParser_parse_def MultiLineParser_parse_def recorder_def gate_open_def init_simps)

section \<open>Lines that do not have the expected shape\<close>

text \<open>
  C5. \<^verbatim>\<open>HessianParser.collect\<close> reads \<^verbatim>\<open>words[1]\<close> before any test: on a blank line, and on
  the header of a column block with a single column, it raises IndexError.\<close>

theorem HessianParser_collect_short_line:
  "HessianParser_collect fl '''' h = Inl IndexError \<and>
   HessianParser_collect fl ''                6'' h = Inl IndexError"
  by (simp add: HessianParser_collect_def py_split_def is_space_def)

text \<open>The other collectors test the shape first and leave the accumulator as it is.\<close>

lemma unmatched_line_ignored:
  "take (length pattern) line \<noteq> pattern \<Longrightarrow>
     FrequenciesParser_collect fl pattern line fs = Inr fs"
  "re_search mass_re line = None \<Longrightarrow> MassParser_collect fl line ms = Inr ms"
  "re_search coordinates_re line = None \<Longrightarrow> CoordinatesParser_collect fl fa line d = Inr d"
  "re_search energy_re line = None \<Longrightarrow> EnergyParser_collect fl line es = Inr es"
  by (simp_all add: FrequenciesParser_collect_def MassParser_collect_def
      CoordinatesParser_collect_def EnergyParser_collect_def)

section \<open>The gating predicate\<close>

lemma gated_window:
  "\<not> gate_open q \<Longrightarrow> \<not> active q \<Longrightarrow> MultiLineParser_parse ops q line = Inr q"
  by (simp add: MultiLineParser_parse_def)

lemma gated_parse:
  assumes c: "condition p = Some False" and a: "\<not> active p"
  shows "LinkParser_parse ops p line =
    Inr (p\<lparr>in_link := (is_enter (link p) line \<or> (in_link p \<and> \<not> is_leave (link p) line))\<rparr>)"
proof -
  have g: "\<not> gate_open p" using c by (simp add: gate_open_def)
  have w: "MultiLineParser_parse ops p line = Inr p"
    using g a by (rule gated_window)
  show ?thesis
  proof (cases "is_leave (link p) line")
    case True
    then show ?thesis by (simp add: LinkParser_parse_def Let_def)
  next
    case False
    show ?thesis
    proof (cases "in_link p")
      case True
      have "p\<lparr>in_link := True\<rparr> = p" using True by simp
      then show ?thesis using False True w by (simp add: LinkParser_parse_def Let_def)
    next
      case nin: False
      have "p\<lparr>in_link := False\<rparr> = p" using nin by simp
      then show ?thesis using False nin by (simp add: LinkParser_parse_def Let_def)
    qed
  qed
qed

lemma gated_feed:
  assumes "condition p = Some False" and "\<not> active p"
  shows "\<exists>b. feed ops p ls = Inr (p\<lparr>in_link := b\<rparr>)"
  using assms
proof (induction ls arbitrary: p)
  case Nil
  have "p\<lparr>in_link := in_link p\<rparr> = p" by simp
  then have "feed ops p [] = Inr (p\<lparr>in_link := in_link p\<rparr>)" by simp
  then show ?case by blast
next
  case (Cons l ls)
  let ?b = "is_enter (link p) l \<or> (in_link p \<and> \<not> is_leave (link p) l)"
  have s: "LinkParser_parse ops p l = Inr (p\<lparr>in_link := ?b\<rparr>)"
    using Cons.prems by (rule gated_parse)
  have "condition (p\<lparr>in_link := ?b\<rparr>) = Some False" "\<not> active (p\<lparr>in_link := ?b\<rparr>)"
    using Cons.prems by simp_all
  from Cons.IH [OF this]
  obtain b' where "feed ops (p\<lparr>in_link := ?b\<rparr>) ls = Inr (p\<lparr>in_link := ?b, in_link := b'\<rparr>)"
    by blast
  then have "feed ops p (l # ls) = Inr (p\<lparr>in_link := b'\<rparr>)"
    using s by simp
  then show ?case by blast
qed

text \<open>
  C8. With the gating predicate evaluated to false, whatever the markers, the collector
  and the lines: the pass ends without error, the window is not collecting, and the
  accumulator is the one the parser was reset to (empty for every concrete parser). As
  the lines are arbitrary, this holds after every line of the pass.\<close>

theorem gate_never_collects_nothing:
  "\<exists>p'. feed ops (LinkParser_init lk act deact (Some False) d) ls = Inr p' \<and>
        \<not> collecting p' \<and> data p' = d"
proof -
  let ?p = "LinkParser_init lk act deact (Some False) d"
  have "condition ?p = Some False" "\<not> active ?p" by (simp_all add: init_simps)
  from gated_feed [OF this, of ops ls]
  obtain b where f: "feed ops ?p ls = Inr (?p\<lparr>in_link := b\<rparr>)" by blast
  have "\<not> collecting (?p\<lparr>in_link := b\<rparr>)"
    by (simp add: collecting_def gate_open_def init_simps)
  moreover have "data (?p\<lparr>in_link := b\<rparr>) = d" by (simp add: init_simps)
  ultimately show ?thesis using f by blast
qed

section \<open>The energy example\<close>

lemmas marker_defs = is_enter_def is_leave_def py_slice_def norm_index_def

lemmas re_defs = re_search_def lit_def run_lengths_def is_space_def is_digit_def matches_def

lemma scf_markers:
  "\<not> is_enter ''502'' scf_line_1" "\<not> is_leave ''502'' scf_line_1"
  "\<not> is_enter ''502'' scf_line_2" "\<not> is_leave ''502'' scf_line_2"
  by (simp_all add: marker_defs scf_line_1_def scf_line_2_def)

lemma scf_search:
  "re_search energy_re scf_line_1 = Some [(''energy'', ''-1.234567'')]"
  "re_search energy_re scf_line_2 = Some [(''energy'', ''-1.300000'')]"
  by (simp_all add: re_defs energy_re_def scf_line_1_def scf_line_2_def)

lemma markers_502_search:
  "re_search energy_re enter_502 = None" "re_search energy_re leave_502 = None"
  by (simp_all add: re_defs energy_re_def enter_502_def leave_502_def)

lemma dec_float_examples:
  "dec_float ''-1.234567'' = Some (-1.234567)" "dec_float ''-1.300000'' = Some (-1.3)"
  by (simp_all add: dec_float_def unsigned_float_def mantissa_def is_exp_mark_def is_digit_def
      digits_val_def digit_val_def)

lemma literal_markers_502:
  "\<not> is_enter ''502'' '' (Enter l502)''" "\<not> is_leave ''502'' '' (Enter l502)''"
  "\<not> is_enter ''502'' '' Leave Link502''" "\<not> is_leave ''502'' '' Leave Link502''"
  by (simp_all add: marker_defs)

lemma energy_step:
  "re_search energy_re l = Some gs \<Longrightarrow> fl (group gs ''energy'') = Some v \<Longrightarrow>
   collect (EnergyParser_ops fl) l d = Inr (d @ [v])"
  by (simp add: EnergyParser_ops_def EnergyParser_collect_def)

text \<open>
  C2 as stated fails: in \<^verbatim>\<open>" (Enter l502)"\<close> the link is not followed by six characters, and
  in \<^verbatim>\<open>" Leave Link502"\<close> it does not start at column 13; neither marker is recognised and
  nothing is collected.\<close>

theorem energy_example_literal_lines:
  "feed (EnergyParser_ops dec_float) (EnergyParser None)
     ['' (Enter l502)'', scf_line_1, '' Leave Link502''] = Inr (EnergyParser None) \<and>
   data (EnergyParser None :: real list LinkParser) = []"
  using literal_markers_502 scf_markers
  by (simp add: LinkParser_parse_def EnergyParser_def init_simps)

text \<open>
  C2 (as amended). With the markers as Gaussian prints them, the energy parser returns
  the value of the energy line, and both values in file order for two blocks.\<close>

theorem energy_example:
  assumes "fl ''-1.234567'' = Some v1" and "fl ''-1.300000'' = Some v2"
  shows "feed (EnergyParser_ops fl) (EnergyParser None) [enter_502, scf_line_1, leave_502] =
           Inr ((EnergyParser None)\<lparr>data := [v1]\<rparr>) \<and>
         feed (EnergyParser_ops fl) (EnergyParser None)
           [enter_502, scf_line_1, leave_502, enter_502, scf_line_2, leave_502] =
           Inr ((EnergyParser None)\<lparr>data := [v1, v2]\<rparr>)"
  using assms is_enter_502 not_leave_enter_502 is_leave_502 not_enter_leave_502 scf_markers
  by (simp add: LinkParser_parse_def MultiLineParser_parse_def gate_open_def EnergyParser_def
      init_simps EnergyParser_ops_def EnergyParser_collect_def scf_search group_def)

theorem energy_example_witness:
  "dec_float ''-1.234567'' = Some (-1.234567) \<and> dec_float ''-1.300000'' = Some (-1.3) \<and>
   feed (EnergyParser_ops dec_float) (EnergyParser None) [enter_502, scf_line_1, leave_502] =
     Inr ((EnergyParser None)\<lparr>data := [-1.234567]\<rparr>) \<and>
   feed (EnergyParser_ops dec_float) (EnergyParser None)
     [enter_502, scf_line_1, leave_502, enter_502, scf_line_2, leave_502] =
     Inr ((EnergyParser None)\<lparr>data := [-1.234567, -1.3]\<rparr>)"
  using energy_example [OF dec_float_examples] dec_float_examples by simp

section \<open>Repeated cycles of a section\<close>

lemma feed_append:
  "feed ops p (xs @ ys) = (case feed ops p xs of Inl e \<Rightarrow> Inl e | Inr p' \<Rightarrow> feed ops p' ys)"
  by (induction xs arbitrary: p) (simp_all split: sum.splits)

lemma outside_step:
  assumes "\<not> in_link p" and "\<not> is_enter (link p) x"
  shows "LinkParser_parse ops p x = Inr p"
proof -
  have "p\<lparr>in_link := False\<rparr> = p" using assms(1) by simp
  then show ?thesis using assms by (simp add: LinkParser_parse_def Let_def)
qed

lemma outside_feed:
  "\<not> in_link p \<Longrightarrow> list_all (\<lambda>x. \<not> is_enter (link p) x) ls \<Longrightarrow> feed ops p ls = Inr p"
  by (induction ls) (simp_all add: outside_step)

lemma enter_step:
  assumes "\<not> in_link p" and "is_enter (link p) e"
  shows "LinkParser_parse ops p e = Inr (p\<lparr>in_link := True\<rparr>)"
  using assms by (simp add: LinkParser_parse_def Let_def)

lemma leave_step:
  assumes "is_leave (link p) l"
  shows "LinkParser_parse ops p l = Inr (p\<lparr>in_link := False\<rparr>)"
  using assms leave_not_enter [OF assms] by (simp add: LinkParser_parse_def Let_def)

lemma inside_step:
  assumes "in_link p" and "activator p = None" and "gate_open p" and "\<not> is_leave (link p) x"
  shows "LinkParser_parse ops p x =
    (case collect ops x (data p) of Inl e \<Rightarrow> Inl e | Inr d \<Rightarrow> Inr (p\<lparr>data := d\<rparr>))"
proof -
  have "\<And>d. p\<lparr>data := d, in_link := True\<rparr> = p\<lparr>data := d\<rparr>"
    using assms(1) by simp
  then show ?thesis
    using assms
    by (simp add: LinkParser_parse_def MultiLineParser_parse_def Let_def split: sum.splits)
qed

lemma inside_feed:
  assumes "in_link p" and "activator p = None" and "gate_open p"
    and "list_all (\<lambda>x. \<not> is_leave (link p) x) ls"
  shows "feed ops p ls =
    (case collect_all ops ls (data p) of Inl e \<Rightarrow> Inl e | Inr d \<Rightarrow> Inr (p\<lparr>data := d\<rparr>))"
  using assms
proof (induction ls arbitrary: p)
  case Nil
  then show ?case by simp
next
  case (Cons x ls)
  have st: "LinkParser_parse ops p x =
    (case collect ops x (data p) of Inl e \<Rightarrow> Inl e | Inr d \<Rightarrow> Inr (p\<lparr>data := d\<rparr>))"
    using Cons.prems by (simp add: inside_step)
  show ?case
  proof (cases "collect ops x (data p)")
    case (Inl e)
    then show ?thesis using st by simp
  next
    case (Inr d)
    have "feed ops (p\<lparr>data := d\<rparr>) ls =
      (case collect_all ops ls d of Inl e \<Rightarrow> Inl e | Inr d' \<Rightarrow> Inr (p\<lparr>data := d'\<rparr>))"
      using Cons.IH [of "p\<lparr>data := d\<rparr>"] Cons.prems
      by (simp add: gate_open_def split: sum.splits)
    then show ?thesis using st Inr by simp
  qed
qed

lemma energy_collect_all:
  "energies_parse fl ls \<Longrightarrow>
   collect_all (EnergyParser_ops fl) ls d = Inr (d @ energy_values fl ls)"
proof (induction ls arbitrary: d)
  case Nil
  then show ?case by (simp add: energy_values_def)
next
  case (Cons l ls)
  then have ok: "energies_parse fl ls" by (simp add: energies_parse_def)
  show ?case
  proof (cases "re_search energy_re l")
    case None
    then show ?thesis using Cons.IH [OF ok, of d]
      by (simp add: EnergyParser_ops_def EnergyParser_collect_def energy_values_def)
  next
    case (Some gs)
    with Cons.prems obtain v where v: "fl (group gs ''energy'') = Some v"
      by (auto simp: energies_parse_def)
    then show ?thesis using Some Cons.IH [OF ok, of "d @ [v]"]
      by (simp add: EnergyParser_ops_def EnergyParser_collect_def energy_values_def)
  qed
qed

lemma energy_cycle:
  assumes o: "\<not> in_link p" and a: "activator p = None" and g: "gate_open p"
    and w: "well_formed_cycle (link p) c" and e: "energies_parse fl (c_body c)"
  shows "feed (EnergyParser_ops fl) p (cycle_lines c) =
    Inr (p\<lparr>data := data p @ energy_values fl (c_body c)\<rparr>)"
proof -
  let ?ops = "EnergyParser_ops fl"
  let ?p1 = "p\<lparr>in_link := True\<rparr>"
  let ?p2 = "?p1\<lparr>data := data p @ energy_values fl (c_body c)\<rparr>"
  have s1: "feed ?ops p (c_before c) = Inr p"
    using o w by (simp add: outside_feed well_formed_cycle_def)
  have s2: "LinkParser_parse ?ops p (c_enter c) = Inr ?p1"
    using o w by (simp add: enter_step well_formed_cycle_def)
  have s3: "feed ?ops ?p1 (c_body c) = Inr ?p2"
    using inside_feed [of ?p1 "c_body c" ?ops] a g w energy_collect_all [OF e, of "data p"]
    by (simp add: well_formed_cycle_def gate_open_def)
  have s4: "LinkParser_parse ?ops ?p2 (c_leave c) = Inr (?p2\<lparr>in_link := False\<rparr>)"
    using w by (simp add: leave_step well_formed_cycle_def)
  have fin: "?p2\<lparr>in_link := False\<rparr> = p\<lparr>data := data p @ energy_values fl (c_body c)\<rparr>"
    using o by simp
  show ?thesis
    unfolding cycle_lines_def
    using s1 s2 s3 s4 fin by (simp add: feed_append)
qed

lemma energy_cycles:
  assumes "\<not> in_link p" and "activator p = None" and "gate_open p"
    and "\<forall>c \<in> set cs. well_formed_cycle (link p) c \<and> energies_parse fl (c_body c)"
  shows "feed (EnergyParser_ops fl) p (concat (map cycle_lines cs)) =
    Inr (p\<lparr>data := data p @ concat (map (\<lambda>c. energy_values fl (c_body c)) cs)\<rparr>)"
  using assms
proof (induction cs arbitrary: p)
  case Nil
  then show ?case by simp
next
  case (Cons c cs)
  let ?q = "p\<lparr>data := data p @ energy_values fl (c_body c)\<rparr>"
  have c: "feed (EnergyParser_ops fl) p (cycle_lines c) = Inr ?q"
    using Cons.prems by (simp add: energy_cycle)
  have "feed (EnergyParser_ops fl) ?q (concat (map cycle_lines cs)) =
    Inr (?q\<lparr>data := data ?q @ concat (map (\<lambda>c. energy_values fl (c_body c)) cs)\<rparr>)"
    using Cons.prems by (intro Cons.IH) (simp_all add: gate_open_def)
  then show ?case using c by (simp add: feed_append)
qed

text \<open>
  C3. A log of N cycles of section 502 (before each entry marker no entry marker, inside
  each section no exit marker, after the last cycle no entry marker) in which every
  matched energy token is a number: the energy parser without gate returns exactly the
  values of the matching lines of the N section bodies, in file order.\<close>

theorem energies_of_every_cycle:
  assumes "\<forall>c \<in> set cs. well_formed_cycle ''502'' c \<and> energies_parse fl (c_body c)"
    and "list_all (\<lambda>x. \<not> is_enter ''502'' x) rest"
  shows "feed (EnergyParser_ops fl) (EnergyParser None) (concat (map cycle_lines cs) @ rest) =
    Inr ((EnergyParser None)\<lparr>data := concat (map (\<lambda>c. energy_values fl (c_body c)) cs)\<rparr>)"
proof -
  let ?p = "EnergyParser None :: 'a list LinkParser"
  let ?q = "?p\<lparr>data := concat (map (\<lambda>c. energy_values fl (c_body c)) cs)\<rparr>"
  have "feed (EnergyParser_ops fl) ?p (concat (map cycle_lines cs)) = Inr ?q"
    using energy_cycles [of ?p cs fl] assms(1)
    by (simp add: EnergyParser_def init_simps gate_open_def)
  moreover have "feed (EnergyParser_ops fl) ?q rest = Inr ?q"
    using assms(2) by (intro outside_feed) (simp_all add: EnergyParser_def init_simps)
  ultimately show ?thesis by (simp add: feed_append)
qed

lemma cycle_text_line:
  "\<not> is_leave ''502'' '' Cycle 1''" "re_search energy_re '' Cycle 1'' = None"
  by (simp_all add: marker_defs re_defs energy_re_def)

theorem energies_of_every_cycle_witness:
  "well_formed_cycle ''502'' cycle_a \<and> energies_parse dec_float (c_body cycle_a) \<and>
   well_formed_cycle ''502'' cycle_b \<and> energies_parse dec_float (c_body cycle_b) \<and>
   list_all (\<lambda>x. \<not> is_enter ''502'' x) [scf_line_1] \<and>
   feed (EnergyParser_ops dec_float) (EnergyParser None)
     (concat (map cycle_lines [cycle_a, cycle_b]) @ [scf_line_1]) =
     Inr ((EnergyParser None)\<lparr>data := [-1.234567, -1.3]\<rparr>)"
proof -
  have h1: "\<forall>c \<in> set [cycle_a, cycle_b].
      well_formed_cycle ''502'' c \<and> energies_parse dec_float (c_body c)"
    using scf_markers is_enter_502 is_leave_502 cycle_text_line
    by (simp add: well_formed_cycle_def energies_parse_def cycle_a_def cycle_b_def scf_search
        group_def dec_float_examples)
  have h2: "list_all (\<lambda>x. \<not> is_enter ''502'' x) [scf_line_1]"
    using scf_markers by simp
  have v: "concat (map (\<lambda>c. energy_values dec_float (c_body c)) [cycle_a, cycle_b]) = [-1.234567, -1.3]"
    by (simp add: energy_values_def cycle_a_def cycle_b_def scf_search cycle_text_line group_def
        dec_float_examples)
  show ?thesis
    using energies_of_every_cycle [OF h1 h2] h1 h2 v by simp
qed

section \<open>Re-entering a section\<close>









section \<open>The coordinates parser\<close>

lemmas float_defs = dec_float_def unsigned_float_def mantissa_def is_exp_mark_def is_digit_def
  digits_val_def digit_val_def scale_def py_int_def py_nat_def

lemma floats3:
  "floats fl [a, b, c] = Inr vs \<longleftrightarrow>
   (\<exists>x y z. fl a = Some x \<and> fl b = Some y \<and> fl c = Some z \<and> vs = [x, y, z])"
  by (auto split: option.splits)

lemma coordinates_collect_all:
  assumes "coordinates_parse fl ls" and "current_coordinates d = Some cur"
  shows "collect_all (CoordinatesParser_ops fl fa) ls d =
    Inr (d\<lparr>current_coordinates := Some (cur @ coordinate_rows fl fa ls)\<rparr>)"
  using assms
proof (induction ls arbitrary: d cur)
  case Nil
  then show ?case by (simp add: coordinate_rows_def)
next
  case (Cons l ls)
  then have ok: "coordinates_parse fl ls" by (simp add: coordinates_parse_def)
  show ?case
  proof (cases "re_search coordinates_re l")
    case None
    then show ?thesis using Cons.IH [OF ok Cons.prems(2)]
      by (simp add: CoordinatesParser_ops_def CoordinatesParser_collect_def coordinate_rows_def)
  next
    case (Some gs)
    with Cons.prems(1) obtain x y z where
      v: "fl (group gs ''x'') = Some x" "fl (group gs ''y'') = Some y" "fl (group gs ''z'') = Some z"
      by (auto simp: coordinates_parse_def)
    let ?d = "d\<lparr>current_coordinates := Some (cur @ [map fa [x, y, z]])\<rparr>"
    have st: "collect (CoordinatesParser_ops fl fa) l d = Inr ?d"
      using Some v Cons.prems(2)
      by (simp add: CoordinatesParser_ops_def CoordinatesParser_collect_def)
    have "collect_all (CoordinatesParser_ops fl fa) ls ?d =
      Inr (?d\<lparr>current_coordinates := Some ((cur @ [map fa [x, y, z]]) @ coordinate_rows fl fa ls)\<rparr>)"
      by (rule Cons.IH [OF ok]) simp
    then show ?thesis using st Some v by (simp add: coordinate_rows_def)
  qed
qed

lemma coordinates_episode:
  assumes "coordinates_parse fl ls"
  shows "episode (CoordinatesParser_ops fl fa) ls d =
    Inr \<lparr>coordinates = coordinates d @ [coordinate_rows fl fa ls],
         current_coordinates = Some (coordinate_rows fl fa ls)\<rparr>"
proof -
  let ?d1 = "d\<lparr>current_coordinates := Some []\<rparr>"
  have "collect_all (CoordinatesParser_ops fl fa) ls ?d1 =
    Inr (?d1\<lparr>current_coordinates := Some ([] @ coordinate_rows fl fa ls)\<rparr>)"
    using assms by (rule coordinates_collect_all) simp
  then show ?thesis
    by (simp add: episode_def CoordinatesParser_ops_def CoordinatesParser_start_collecting_def
        CoordinatesParser_stop_collecting_def)
qed

lemma coordinates_episodes:
  assumes "list_all (coordinates_parse fl) eps"
  shows "\<exists>d'. episodes (CoordinatesParser_ops fl fa) eps d = Inr d' \<and>
    coordinates d' = coordinates d @ map (coordinate_rows fl fa) eps"
  using assms
proof (induction eps arbitrary: d)
  case Nil
  then show ?case by simp
next
  case (Cons ls eps)
  let ?d = "\<lparr>coordinates = coordinates d @ [coordinate_rows fl fa ls],
         current_coordinates = Some (coordinate_rows fl fa ls)\<rparr>"
  have e: "episode (CoordinatesParser_ops fl fa) ls d = Inr ?d"
    using Cons.prems by (simp add: coordinates_episode)
  have "\<exists>d'. episodes (CoordinatesParser_ops fl fa) eps ?d = Inr d' \<and>
    coordinates d' = coordinates ?d @ map (coordinate_rows fl fa) eps"
    using Cons.prems by (intro Cons.IH) simp
  then show ?case using e by simp
qed

lemma coordinate_rows_width: "list_all (\<lambda>row. length row = 3) (coordinate_rows fl fa ls)"
proof (induction ls)
  case Nil
  show ?case by (simp add: coordinate_rows_def)
next
  case (Cons l ls)
  then show ?case
    by (auto simp: coordinate_rows_def floats3 split: option.splits sum.splits)
qed

text \<open>
  C9. For every sequence of episodes of the coordinates parser in which the matched
  tokens are numbers: the episodes run without error, and \<^verbatim>\<open>result()\<close> is the earlier
  result followed by one array per episode, in order, whose rows are the converted
  triples of the matching lines (three columns each). \<^verbatim>\<open>collect\<close> stores the triple already
  converted by \<^verbatim>\<open>from_angstrom\<close>; \<^verbatim>\<open>stop_collecting\<close> appends the current array as it is.\<close>

theorem one_coordinate_array_per_episode:
  assumes "list_all (coordinates_parse fl) eps"
  shows "(\<exists>d'. episodes (CoordinatesParser_ops fl fa) eps d = Inr d' \<and>
            CoordinatesParser_result d' =
              CoordinatesParser_result d @ map (coordinate_rows fl fa) eps) \<and>
         list_all (list_all (\<lambda>row. length row = 3)) (map (coordinate_rows fl fa) eps) \<and>
         (\<forall>cur gs x y z. current_coordinates d = Some cur \<and> re_search coordinates_re l = Some gs \<and>
            fl (group gs ''x'') = Some x \<and> fl (group gs ''y'') = Some y \<and>
            fl (group gs ''z'') = Some z \<longrightarrow>
            CoordinatesParser_collect fl fa l d =
              Inr (d\<lparr>current_coordinates := Some (cur @ [[fa x, fa y, fa z]])\<rparr>)) \<and>
         (\<forall>cur. current_coordinates d = Some cur \<longrightarrow>
            CoordinatesParser_stop_collecting d = Inr (d\<lparr>coordinates := coordinates d @ [cur]\<rparr>))"
proof -
  have a: "\<exists>d'. episodes (CoordinatesParser_ops fl fa) eps d = Inr d' \<and>
            CoordinatesParser_result d' =
              CoordinatesParser_result d @ map (coordinate_rows fl fa) eps"
    using coordinates_episodes [OF assms, of fa d] by (simp add: CoordinatesParser_result_def)
  have b: "list_all (list_all (\<lambda>row. length row = 3)) (map (coordinate_rows fl fa) eps)"
    by (simp add: list_all_iff coordinate_rows_width [unfolded list_all_iff])
  have c: "\<forall>cur gs x y z. current_coordinates d = Some cur \<and> re_search coordinates_re l = Some gs \<and>
            fl (group gs ''x'') = Some x \<and> fl (group gs ''y'') = Some y \<and>
            fl (group gs ''z'') = Some z \<longrightarrow>
            CoordinatesParser_collect fl fa l d =
              Inr (d\<lparr>current_coordinates := Some (cur @ [[fa x, fa y, fa z]])\<rparr>)"
    by (simp add: CoordinatesParser_collect_def)
  have e: "\<forall>cur. current_coordinates d = Some cur \<longrightarrow>
            CoordinatesParser_stop_collecting d = Inr (d\<lparr>coordinates := coordinates d @ [cur]\<rparr>)"
    by (simp add: CoordinatesParser_stop_collecting_def)
  show ?thesis using a b c e by blast
qed

lemma atom_search:
  "re_search coordinates_re atom_line_1 = Some [(''x'', ''0.000000''), (''y'', ''1.500000''), (''z'', ''-0.250000'')]"
  "re_search coordinates_re atom_line_2 = Some [(''x'', ''1.000000''), (''y'', ''0.500000''), (''z'', ''0.750000'')]"
  "re_search coordinates_re orientation_line = None"
  by (simp_all add: re_defs coordinates_re_def atom_line_1_def atom_line_2_def orientation_line_def)

lemma atom_floats:
  "dec_float ''0.000000'' = Some 0" "dec_float ''1.500000'' = Some 1.5"
  "dec_float ''-0.250000'' = Some (-0.25)" "dec_float ''1.000000'' = Some 1"
  "dec_float ''0.500000'' = Some 0.5" "dec_float ''0.750000'' = Some 0.75"
  by (simp_all add: float_defs)

lemma atom_rows:
  "coordinate_rows dec_float (\<lambda>x. 2 * x) [orientation_line, atom_line_1] = [[0, 3, -0.5]]"
  "coordinate_rows dec_float (\<lambda>x. 2 * x) [atom_line_2, atom_line_1] = [[2, 1, 1.5], [0, 3, -0.5]]"
  by (simp_all add: coordinate_rows_def atom_search atom_floats group_def)

lemma atom_parse:
  "coordinates_parse dec_float [orientation_line, atom_line_1]"
  "coordinates_parse dec_float [atom_line_2, atom_line_1]"
  by (simp_all add: coordinates_parse_def atom_search atom_floats group_def)

theorem one_coordinate_array_per_episode_witness:
  "list_all (coordinates_parse dec_float) [[orientation_line, atom_line_1], [atom_line_2, atom_line_1]] \<and>
   (\<exists>d'. episodes (CoordinatesParser_ops dec_float (\<lambda>x. 2 * x))
            [[orientation_line, atom_line_1], [atom_line_2, atom_line_1]] coordinates_reset = Inr d' \<and>
          CoordinatesParser_result d' = [[[0, 3, -0.5]], [[2, 1, 1.5], [0, 3, -0.5]]])"
proof -
  have h: "list_all (coordinates_parse dec_float)
      [[orientation_line, atom_line_1], [atom_line_2, atom_line_1]]"
    using atom_parse by simp
  have r: "CoordinatesParser_result coordinates_reset = []"
    by (simp add: CoordinatesParser_result_def coordinates_reset_def)
  show ?thesis
    using one_coordinate_array_per_episode [OF h, of "\<lambda>x. 2 * x" coordinates_reset] h
    by (simp add: atom_rows r)
qed

section \<open>Earlier episodes\<close>

lemma coordinates_collect_keeps:
  "collect (CoordinatesParser_ops fl fa) l d = Inr d' \<Longrightarrow>
   coordinates d' = coordinates d \<and> (current_coordinates d \<noteq> None \<longrightarrow> current_coordinates d' \<noteq> None)"
  by (auto simp: CoordinatesParser_ops_def CoordinatesParser_collect_def
      split: option.splits sum.splits)

lemma coordinates_collect_all_keeps:
  "collect_all (CoordinatesParser_ops fl fa) ls d = Inr d' \<Longrightarrow> current_coordinates d \<noteq> None \<Longrightarrow>
   coordinates d' = coordinates d \<and> current_coordinates d' \<noteq> None"
proof (induction ls arbitrary: d)
  case Nil
  then show ?case by simp
next
  case (Cons l ls)
  from Cons.prems(1) obtain d1 where
    s: "collect (CoordinatesParser_ops fl fa) l d = Inr d1"
    and r: "collect_all (CoordinatesParser_ops fl fa) ls d1 = Inr d'"
    by (auto split: sum.splits)
  from coordinates_collect_keeps [OF s] Cons.prems(2)
  have k: "coordinates d1 = coordinates d" "current_coordinates d1 \<noteq> None" by simp_all
  from Cons.IH [OF r k(2)] k(1) show ?case by simp
qed

text \<open>
  C6 (as amended). An episode of the coordinates parser that ends without error leaves
  the arrays of the earlier episodes in place and adds one array after them.\<close>

theorem coordinates_keep_earlier_episodes:
  assumes "episode (CoordinatesParser_ops fl fa) ls d = Inr d'"
  shows "\<exists>a. CoordinatesParser_result d' = CoordinatesParser_result d @ [a]"
proof -
  let ?d1 = "d\<lparr>current_coordinates := Some []\<rparr>"
  from assms obtain d2 where
    c: "collect_all (CoordinatesParser_ops fl fa) ls ?d1 = Inr d2"
    and s: "CoordinatesParser_stop_collecting d2 = Inr d'"
    by (auto simp: episode_def CoordinatesParser_ops_def CoordinatesParser_start_collecting_def
        split: sum.splits)
  from coordinates_collect_all_keeps [OF c]
  have k: "coordinates d2 = coordinates d" "current_coordinates d2 \<noteq> None" by simp_all
  then obtain cur where "current_coordinates d2 = Some cur" by blast
  with s k(1) show ?thesis
    by (auto simp: CoordinatesParser_stop_collecting_def CoordinatesParser_result_def)
qed

theorem coordinates_keep_earlier_episodes_witness:
  "episode (CoordinatesParser_ops dec_float (\<lambda>x. 2 * x)) [atom_line_2, atom_line_1]
     \<lparr>coordinates = [[[0, 3, -0.5]]], current_coordinates = Some [[0, 3, -0.5]]\<rparr> =
     Inr \<lparr>coordinates = [[[0, 3, -0.5]], [[2, 1, 1.5], [0, 3, -0.5]]],
          current_coordinates = Some [[2, 1, 1.5], [0, 3, -0.5]]\<rparr> \<and>
   (\<exists>a. CoordinatesParser_result
           \<lparr>coordinates = [[[0, 3, -0.5]], [[2, 1, 1.5], [0, 3, -0.5 :: real]]],
            current_coordinates = Some [[2, 1, 1.5], [0, 3, -0.5]]\<rparr> =
         CoordinatesParser_result
           \<lparr>coordinates = [[[0, 3, -0.5]]], current_coordinates = Some [[0, 3, -0.5]]\<rparr> @ [a])"
proof -
  have e: "episode (CoordinatesParser_ops dec_float (\<lambda>x. 2 * x)) [atom_line_2, atom_line_1]
     \<lparr>coordinates = [[[0, 3, -0.5]]], current_coordinates = Some [[0, 3, -0.5]]\<rparr> =
     Inr \<lparr>coordinates = [[[0, 3, -0.5]], [[2, 1, 1.5], [0, 3, -0.5]]],
          current_coordinates = Some [[2, 1, 1.5], [0, 3, -0.5]]\<rparr>"
    using coordinates_episode [OF atom_parse(2), of "\<lambda>x. 2 * x"] by (simp add: atom_rows)
  from coordinates_keep_earlier_episodes [OF e] e show ?thesis by blast
qed

lemma mass_search:
  "re_search mass_re mass_line_1 = Some [(''mass'', ''1.00783'')]"
  "re_search mass_re mass_line_2 = Some [(''mass'', ''12.00000'')]"
  by (simp_all add: re_defs mass_re_def mass_line_1_def mass_line_2_def)

lemma mass_floats:
  "dec_float ''1.00783'' = Some 1.00783" "dec_float ''12.00000'' = Some 12"
  by (simp_all add: float_defs)

text \<open>
  C6 as stated fails for the mass and Hessian parsers: \<^verbatim>\<open>start_collecting\<close> replaces the
  accumulator by an empty list, so after a second episode only its own values remain.\<close>

theorem restart_discards_earlier_episode:
  "episode (MassParser_ops dec_float) [mass_line_1] (PyList []) = Inr (NumArray [1.00783]) \<and>
   episode (MassParser_ops dec_float) [mass_line_2] (NumArray [1.00783]) = Inr (NumArray [12]) \<and>
   HessianParser_start_collecting (NumArray [[1.5 :: real]]) = Inr (PyList [])"
  by (simp add: episode_def MassParser_ops_def MassParser_start_collecting_def
      MassParser_collect_def MassParser_stop_collecting_def mass_search mass_floats group_def
      HessianParser_start_collecting_def)

section \<open>The Hessian parser\<close>

text \<open>
  Every assignment of \<^verbatim>\<open>stop_collecting\<close> writes a value and its mirror image, so the
  array it returns is square, of the size of the row list, and symmetric.\<close>

lemma zeros_symmetric: "symmetric_square n (zeros n)"
  by (simp add: symmetric_square_def zeros_def)

lemma set_pair_symmetric:
  assumes "symmetric_square n m" and "r < n" and "c < n"
  shows "symmetric_square n (set_entry (set_entry m r c v) c r v)"
  using assms
  by (auto simp: symmetric_square_def set_entry_def nth_list_update)

lemma set_diag_symmetric:
  assumes "symmetric_square n m" and "r < n"
  shows "symmetric_square n (set_entry m r r v)"
  using assms
  by (auto simp: symmetric_square_def set_entry_def nth_list_update)

lemma fill_row_symmetric:
  "fill_row r c vs m = Inr m' \<Longrightarrow> symmetric_square n m \<Longrightarrow> symmetric_square n m'"
proof (induction vs arbitrary: c m)
  case Nil
  then show ?case by simp
next
  case (Cons v vs)
  from Cons.prems(2) have len: "length m = n" by (simp add: symmetric_square_def)
  from Cons.prems(1) have b: "r < n" "c < n" using len by (auto split: if_splits)
  let ?m = "let m1 = set_entry m r c v in if r \<noteq> c then set_entry m1 c r v else m1"
  have s: "symmetric_square n ?m"
    using set_pair_symmetric [OF Cons.prems(2) b] set_diag_symmetric [OF Cons.prems(2) b(1)]
    by (cases "r = c") (simp_all add: Let_def)
  have "fill_row r (Suc c) vs ?m = Inr m'"
    using Cons.prems(1) b len by (simp add: Let_def)
  from Cons.IH [OF this s] show ?case .
qed

lemma fill_rows_symmetric:
  "fill_rows r rows m = Inr m' \<Longrightarrow> symmetric_square n m \<Longrightarrow> symmetric_square n m'"
proof (induction rows arbitrary: r m)
  case Nil
  then show ?case by simp
next
  case (Cons row rows)
  from Cons.prems(1) obtain m1 where
    a: "fill_row r 0 row m = Inr m1" and b: "fill_rows (Suc r) rows m1 = Inr m'"
    by (auto split: sum.splits)
  from Cons.IH [OF b fill_row_symmetric [OF a Cons.prems(2)]] show ?case .
qed

lemma HessianParser_stop_collecting_symmetric:
  assumes "HessianParser_stop_collecting h = Inr h'"
  shows "\<exists>m. h' = NumArray m \<and> symmetric_square (length (items h)) m"
proof -
  from assms obtain m where
    f: "fill_rows 0 (items h) (zeros (length (items h))) = Inr m" and h: "h' = NumArray m"
    by (auto simp: HessianParser_stop_collecting_def split: sum.splits)
  from fill_rows_symmetric [OF f zeros_symmetric] h show ?thesis by simp
qed

lemma hessian_floats:
  "dec_float ''0.1e+01'' = Some 1" "dec_float ''0.2e+01'' = Some 2" "dec_float ''0.3e+01'' = Some 3"
  "dec_float ''0.4e+01'' = Some 4" "dec_float ''0.5e+01'' = Some 5" "dec_float ''0.6e+01'' = Some 6"
  "dec_float ''0.7e+01'' = Some 7"
  by (simp_all add: float_defs)

lemma hessian_rows_2:
  "collect_all (HessianParser_ops dec_float) hessian_lines_2 (PyList []) =
     Inr (PyList [[1], [2], [3]])"
  by (simp add: hessian_lines_2_def HessianParser_ops_def HessianParser_collect_def py_split_def
      is_space_def replace_D_def py_int_def py_nat_def is_digit_def digits_val_def digit_val_def
      py_index_def hessian_floats)

text \<open>The same defect on the smallest input: two rows, the second on two lines.\<close>

lemma hessian_split_row_becomes_new_row:
  "episode (HessianParser_ops dec_float) hessian_lines_2 (PyList []) =
     Inr (NumArray [[1, 2, 3], [2, 0, 0], [3, 0, 0]])"
  using hessian_rows_2
  by (simp add: episode_def HessianParser_ops_def HessianParser_start_collecting_def
      HessianParser_stop_collecting_def zeros_def set_entry_def numeral_2_eq_2 numeral_3_eq_3)

lemma hessian_rows_7:
  "collect_all (HessianParser_ops dec_float) hessian_lines_7 (PyList []) =
     Inr (PyList [[1], [1, 2], [1, 2, 3], [1, 2, 3, 4], [1, 2, 3, 4, 5], [1, 2, 3, 4, 5, 6], [1, 2, 3, 4, 5], [6, 7]])"
  by (simp add: hessian_lines_7_def HessianParser_ops_def HessianParser_collect_def py_split_def
      is_space_def replace_D_def py_int_def py_nat_def is_digit_def digits_val_def digit_val_def
      py_index_def hessian_floats)

text \<open>
  C4. Seven rows in Gaussian's layout. The second column block continues rows 6 and 7;
  for row 7 the test \<^verbatim>\<open>row_number >= len(self.hessian)\<close> holds (7 >= 7), so its values
  start an eighth row. The finalized array is 8 by 8, and its entries (7,6) and (7,7),
  counted from 1, are 0 and not the parsed 6 and 7.\<close>

theorem hessian_last_row_becomes_new_row:
  "episode (HessianParser_ops dec_float) hessian_lines_7 (PyList []) =
     Inr (NumArray
       [[1, 1, 1, 1, 1, 1, 1, 6],
        [1, 2, 2, 2, 2, 2, 2, 7],
        [1, 2, 3, 3, 3, 3, 3, 0],
        [1, 2, 3, 4, 4, 4, 4, 0],
        [1, 2, 3, 4, 5, 5, 5, 0],
        [1, 2, 3, 4, 5, 6, 0, 0],
        [1, 2, 3, 4, 5, 0, 0, 0],
        [6, 7, 0, 0, 0, 0, 0, 0]])"
  using hessian_rows_7
  by (simp add: episode_def HessianParser_ops_def HessianParser_start_collecting_def
      HessianParser_stop_collecting_def zeros_def set_entry_def eval_nat_numeral)

end
